theory Spec2Isabelle
  imports Main
begin

section \<open>The conversation subsystem of the Lost and Found platform\<close>

text \<open>
  The development embeds the Mongoose model \<^verbatim>\<open>Chat\<close> (message schema, chat schema,
  instance methods, static queries, pre-save hook) and the Socket.io handlers of
  \<^verbatim>\<open>backend/server.js\<close> that call it.

  Conventions of the embedding.
  \<^item> Object ids (users, posts, chats, messages) are natural numbers. The id Mongoose
    generates for a new sub-document or document is an argument of the operation.
  \<^item> A \<^verbatim>\<open>Date\<close> is its number of milliseconds; a nullable date is an option. One
    operation reads the clock as one value \<open>now\<close>, an argument of the operation.
  \<^item> A JavaScript string is a \<^typ>\<open>string\<close>: one character per code unit, code units
    below 256.
  \<^item> A thrown \<^verbatim>\<open>Error\<close> and a rejected \<^verbatim>\<open>save()\<close> are the left summand of a sum.
  \<^item> The database collection is the list of its documents in insertion order; a handler
    runs from its \<^verbatim>\<open>findById\<close> to its last \<^verbatim>\<open>save()\<close> without another handler in between.
  \<^item> Fields that no modelled operation reads or writes after creation (attachment,
    chatType, title, priority, notifications, metadata, createdAt, updatedAt) are left out.
\<close>

subsection \<open>Documents\<close>

record message =
  mid :: nat
  sender :: nat
  content :: string
  messageType :: string
  isRead :: bool
  readAt :: "nat option"
  isEdited :: bool
  editedAt :: "nat option"
  originalContent :: "string option"
  isDeleted :: bool
  deletedAt :: "nat option"

record participant =
  user :: nat
  joinedAt :: nat
  lastSeen :: nat
  isActive :: bool

record last_message =
  lm_content :: "string option"
  lm_sender :: "nat option"
  lm_timestamp :: "nat option"
  lm_messageType :: string

datatype status = active | closed | archived

record chat =
  cid :: nat
  participants :: "participant list"
  post :: nat
  messages :: "message list"
  lastMessage :: last_message
  status :: status
  isResolved :: bool
  resolvedAt :: "nat option"
  resolvedBy :: "nat option"
  lastActivity :: nat
  autoCloseAt :: nat

text \<open>
  What a method throws, or what \<^verbatim>\<open>save()\<close> rejects with:
  \<^verbatim>\<open>Error('Message not found')\<close>,
  \<^verbatim>\<open>Error('Not authorized to edit this message')\<close> and its delete twin,
  \<^verbatim>\<open>Error('Cannot edit deleted message')\<close>, and Mongoose's validation error;
  and the error that Mongoose throws when \<^verbatim>\<open>populate()\<close> is called on a sub-document of
  an array. The code has no error for a conversation that is not active.
\<close>

datatype error =
  MessageNotFound | NotAuthorized | MessageDeleted | ValidationFailed | PopulateOnSubdocument

subsection \<open>Schema: setter and validators of a message\<close>

text \<open>
  \<^verbatim>\<open>content: { type: String, required: ..., trim: true, maxlength: [1000, ...] }\<close>.
  The trim setter runs when \<open>content\<close> is assigned; \<^verbatim>\<open>String.prototype.trim\<close> removes
  white space and line terminators at both ends (here: the ones below 256).
\<close>

definition is_space :: "char \<Rightarrow> bool" where
  "is_space ch = (of_char ch \<in> {9, 10, 11, 12, 13, 32, 160 :: nat})"

definition trim :: "string \<Rightarrow> string" where
  "trim s = rev (dropWhile is_space (rev (dropWhile is_space s)))"

definition message_types :: "string list" where
  "message_types = [''text'', ''image'', ''file'', ''system'']"

text \<open>The validators run by \<^verbatim>\<open>save()\<close>: a required string is not empty.\<close>

definition valid_message :: "message \<Rightarrow> bool" where
  "valid_message m =
     (content m \<noteq> [] \<and> length (content m) \<le> 1000 \<and> messageType m \<in> set message_types)"

definition valid_chat :: "chat \<Rightarrow> bool" where
  "valid_chat c = list_all valid_message (messages c)"

text \<open>Seven days in milliseconds: \<^verbatim>\<open>7 * 24 * 60 * 60 * 1000\<close>.\<close>

definition week :: nat where
  "week = 7 * 24 * 60 * 60 * 1000"

definition tombstone :: string where
  "tombstone = ''This message has been deleted''"

subsection \<open>Saving a document\<close>

text \<open>
  \<^verbatim>\<open>this.save()\<close> validates the document and runs the pre-save hook
  \<^verbatim>\<open>if (this.isModified('messages')) this.lastActivity = new Date()\<close>.
  \<open>orig\<close> is the document as loaded: a path is modified when an assignment changed
  its value. The result is the persisted document; on rejection nothing is persisted.
\<close>

definition save :: "nat \<Rightarrow> chat \<Rightarrow> chat \<Rightarrow> error + chat" where
  "save now orig c =
     (if \<not> valid_chat c then Inl ValidationFailed
      else if messages c \<noteq> messages orig then Inr (c\<lparr>lastActivity := now\<rparr>)
      else Inr c)"

subsection \<open>Sub-document lookup and in-place update\<close>

text \<open>\<^verbatim>\<open>this.messages.id(messageId)\<close>: the first message with that id, or null.\<close>

definition message_by_id :: "nat \<Rightarrow> message list \<Rightarrow> message option" where
  "message_by_id i ms = find (\<lambda>m. mid m = i) ms"

text \<open>Mutating the sub-document that the lookup returned.\<close>

fun update_message :: "nat \<Rightarrow> (message \<Rightarrow> message) \<Rightarrow> message list \<Rightarrow> message list" where
  "update_message i f [] = []"
| "update_message i f (m # ms) =
     (if mid m = i then f m # ms else m # update_message i f ms)"

text \<open>\<^verbatim>\<open>this.participants.find(p => p.user.toString() === userId.toString())\<close>, mutated.\<close>

fun update_participant ::
  "nat \<Rightarrow> (participant \<Rightarrow> participant) \<Rightarrow> participant list \<Rightarrow> participant list" where
  "update_participant u f [] = []"
| "update_participant u f (p # ps) =
     (if user p = u then f p # ps else p # update_participant u f ps)"

subsection \<open>Instance methods of the chat schema\<close>

text \<open>
  The sub-document that \<^verbatim>\<open>this.messages.push(message)\<close> casts from the pushed object:
  the trim setter on \<open>content\<close>, the schema defaults for the other fields.
\<close>

definition new_message :: "nat \<Rightarrow> nat \<Rightarrow> string \<Rightarrow> string \<Rightarrow> message" where
  "new_message newId senderId text mtype =
     \<lparr>mid = newId, sender = senderId, content = trim text, messageType = mtype,
      isRead = False, readAt = None, isEdited = False, editedAt = None,
      originalContent = None, isDeleted = False, deletedAt = None\<rparr>"

definition addMessage ::
  "chat \<Rightarrow> nat \<Rightarrow> nat \<Rightarrow> string \<Rightarrow> string \<Rightarrow> nat \<Rightarrow> error + chat" where
  "addMessage c newId senderId text mtype now =
     save now c
       (c\<lparr>messages := messages c @ [new_message newId senderId text mtype],
          lastMessage := \<lparr>lm_content = Some text, lm_sender = Some senderId,
                           lm_timestamp = Some now, lm_messageType = mtype\<rparr>,
          lastActivity := now,
          autoCloseAt := now + week\<rparr>)"

definition set_read :: "nat \<Rightarrow> message \<Rightarrow> message" where
  "set_read now m = m\<lparr>isRead := True, readAt := Some now\<rparr>"

definition mark_one :: "nat \<Rightarrow> nat \<Rightarrow> message list \<Rightarrow> nat \<Rightarrow> message list" where
  "mark_one userId now ms messageId =
     (case message_by_id messageId ms of
        None \<Rightarrow> ms
      | Some m \<Rightarrow>
          if sender m \<noteq> userId then update_message messageId (set_read now) ms else ms)"

definition set_read_if_unread :: "nat \<Rightarrow> nat \<Rightarrow> message \<Rightarrow> message" where
  "set_read_if_unread userId now m =
     (if \<not> isRead m \<and> sender m \<noteq> userId then set_read now m else m)"

definition markMessagesAsRead :: "chat \<Rightarrow> nat \<Rightarrow> nat list option \<Rightarrow> nat \<Rightarrow> error + chat" where
  "markMessagesAsRead c userId messageIds now =
     (let ms = (case messageIds of
                  Some ids \<Rightarrow> foldl (mark_one userId now) (messages c) ids
                | None \<Rightarrow> map (set_read_if_unread userId now) (messages c));
          ps = update_participant userId (\<lambda>p. p\<lparr>lastSeen := now\<rparr>) (participants c)
      in save now c (c\<lparr>messages := ms, participants := ps\<rparr>))"

definition edited :: "string \<Rightarrow> nat \<Rightarrow> message \<Rightarrow> message" where
  "edited newContent now m =
     (let m1 = (if \<not> isEdited m then m\<lparr>originalContent := Some (content m)\<rparr> else m)
      in m1\<lparr>content := trim newContent, isEdited := True, editedAt := Some now\<rparr>)"

definition editMessage :: "chat \<Rightarrow> nat \<Rightarrow> string \<Rightarrow> nat \<Rightarrow> nat \<Rightarrow> error + chat" where
  "editMessage c messageId newContent userId now =
     (case message_by_id messageId (messages c) of
        None \<Rightarrow> Inl MessageNotFound
      | Some m \<Rightarrow>
          if sender m \<noteq> userId then Inl NotAuthorized
          else if isDeleted m then Inl MessageDeleted
          else save now c
                 (c\<lparr>messages := update_message messageId (edited newContent now) (messages c)\<rparr>))"

definition deleted :: "nat \<Rightarrow> message \<Rightarrow> message" where
  "deleted now m = m\<lparr>isDeleted := True, deletedAt := Some now, content := trim tombstone\<rparr>"

definition deleteMessage :: "chat \<Rightarrow> nat \<Rightarrow> nat \<Rightarrow> nat \<Rightarrow> error + chat" where
  "deleteMessage c messageId userId now =
     (case message_by_id messageId (messages c) of
        None \<Rightarrow> Inl MessageNotFound
      | Some m \<Rightarrow>
          if sender m \<noteq> userId then Inl NotAuthorized
          else save now c
                 (c\<lparr>messages := update_message messageId (deleted now) (messages c)\<rparr>))"

definition closeChat :: "chat \<Rightarrow> nat option \<Rightarrow> nat \<Rightarrow> error + chat" where
  "closeChat c closedBy now =
     save now c
       (c\<lparr>status := closed, isResolved := True, resolvedAt := Some now,
          resolvedBy := (case closedBy of Some u \<Rightarrow> Some u | None \<Rightarrow> resolvedBy c)\<rparr>)"

definition getUnreadCount :: "chat \<Rightarrow> nat \<Rightarrow> nat" where
  "getUnreadCount c userId =
     length (filter (\<lambda>m. \<not> isRead m \<and> sender m \<noteq> userId \<and> \<not> isDeleted m) (messages c))"

subsection \<open>Static queries of the chat model\<close>

text \<open>
  A query condition on a field of an array of sub-documents holds when some element
  of the array satisfies it; two such conditions are matched independently of each other.
  \<^verbatim>\<open>find({'participants.user': userId, 'participants.isActive': true, status: status})\<close>
\<close>

definition matches_user_chats :: "nat \<Rightarrow> status \<Rightarrow> chat \<Rightarrow> bool" where
  "matches_user_chats userId st c =
     (list_ex (\<lambda>p. user p = userId) (participants c)
      \<and> list_ex (\<lambda>p. isActive p) (participants c)
      \<and> status c = st)"

text \<open>
  \<^verbatim>\<open>.sort({'lastMessage.timestamp': -1})\<close>: descending, and null sorts below every
  date, so it comes last. Documents with equal keys keep their collection order.
\<close>

definition ts_less :: "nat option \<Rightarrow> nat option \<Rightarrow> bool" where
  "ts_less a b =
     (case b of None \<Rightarrow> False
      | Some y \<Rightarrow> (case a of None \<Rightarrow> True | Some x \<Rightarrow> x < y))"

definition sort_key_of :: "chat \<Rightarrow> nat option" where
  "sort_key_of c = lm_timestamp (lastMessage c)"

fun insert_desc :: "chat \<Rightarrow> chat list \<Rightarrow> chat list" where
  "insert_desc c [] = [c]"
| "insert_desc c (d # ds) =
     (if \<not> ts_less (sort_key_of c) (sort_key_of d) then c # d # ds
      else d # insert_desc c ds)"

definition sort_desc :: "chat list \<Rightarrow> chat list" where
  "sort_desc cs = foldr insert_desc cs []"

definition findUserChats :: "chat list \<Rightarrow> nat \<Rightarrow> status \<Rightarrow> chat list" where
  "findUserChats store userId st = sort_desc (filter (matches_user_chats userId st) store)"

text \<open>
  \<^verbatim>\<open>findOne({post: postId, 'participants.user': {$all: userIds}, status: {$ne: 'archived'}})\<close>
\<close>

definition matches_post_users :: "nat \<Rightarrow> nat list \<Rightarrow> chat \<Rightarrow> bool" where
  "matches_post_users postId userIds c =
     (post c = postId
      \<and> list_all (\<lambda>u. list_ex (\<lambda>p. user p = u) (participants c)) userIds
      \<and> status c \<noteq> archived)"

definition findByPostAndUsers :: "chat list \<Rightarrow> nat \<Rightarrow> nat list \<Rightarrow> chat option" where
  "findByPostAndUsers store postId userIds = find (matches_post_users postId userIds) store"

definition findById :: "chat list \<Rightarrow> nat \<Rightarrow> chat option" where
  "findById store chatId = find (\<lambda>c. cid c = chatId) store"

text \<open>Writing a saved document back: the document with its id is replaced.\<close>

definition persist :: "chat \<Rightarrow> chat list \<Rightarrow> chat list" where
  "persist c store = map (\<lambda>d. if cid d = cid c then c else d) store"

subsection \<open>Socket handlers\<close>

text \<open>
  A handler takes the collection and returns the collection and what it emits.
  An error is emitted to the calling socket only. \<open>Failed\<close> is the fixed text of a
  handler's catch block (\<^verbatim>\<open>'Failed to send message'\<close> and the like); \<open>Thrown e\<close> is
  \<^verbatim>\<open>error.message\<close> passed on.
\<close>

datatype error_event = ChatNotFound | NotParticipant | Failed | Thrown error

datatype reply =
    Emit_error error_event
  | Emit_new_message nat message
  | Emit_message_edited nat nat string nat
  | Emit_message_deleted nat nat nat
  | Emit_messages_read nat "nat list option"
  | Emit_chat_created chat

definition isParticipant :: "chat \<Rightarrow> nat \<Rightarrow> bool" where
  "isParticipant c userId = list_ex (\<lambda>p. user p = userId \<and> isActive p) (participants c)"

text \<open>
  \<^verbatim>\<open>await newMessage.populate('sender', 'name avatar')\<close>, where \<^verbatim>\<open>newMessage\<close> is
  \<^verbatim>\<open>chat.messages[chat.messages.length - 1]\<close>: a sub-document of the \<open>messages\<close> array.
  Mongoose does not populate a sub-document of an array: the call throws.
\<close>

definition populate_sender :: "message \<Rightarrow> error + message" where
  "populate_sender newMessage = Inl PopulateOnSubdocument"

text \<open>
  The handler calls \<^verbatim>\<open>populate\<close> after \<^verbatim>\<open>addMessage\<close> has saved: the catch block emits
  its error, and the saved conversation stays.
\<close>

definition send_message ::
  "chat list \<Rightarrow> nat \<Rightarrow> nat \<Rightarrow> string \<Rightarrow> string option \<Rightarrow> nat \<Rightarrow> nat \<Rightarrow> chat list \<times> reply" where
  "send_message store userId chatId text mtype newId now =
     (case findById store chatId of
        None \<Rightarrow> (store, Emit_error ChatNotFound)
      | Some c \<Rightarrow>
          if \<not> isParticipant c userId then (store, Emit_error NotParticipant)
          else (case addMessage c newId userId text
                       (case mtype of None \<Rightarrow> ''text'' | Some t \<Rightarrow> t) now of
                  Inl e \<Rightarrow> (store, Emit_error Failed)
                | Inr c' \<Rightarrow>
                    (case populate_sender (last (messages c')) of
                       Inl e \<Rightarrow> (persist c' store, Emit_error Failed)
                     | Inr newMessage \<Rightarrow>
                         (persist c' store, Emit_new_message chatId newMessage))))"

definition edit_message ::
  "chat list \<Rightarrow> nat \<Rightarrow> nat \<Rightarrow> nat \<Rightarrow> string \<Rightarrow> nat \<Rightarrow> chat list \<times> reply" where
  "edit_message store userId chatId messageId newContent now =
     (case findById store chatId of
        None \<Rightarrow> (store, Emit_error ChatNotFound)
      | Some c \<Rightarrow>
          (case editMessage c messageId newContent userId now of
             Inl e \<Rightarrow> (store, Emit_error (Thrown e))
           | Inr c' \<Rightarrow> (persist c' store, Emit_message_edited chatId messageId newContent now)))"

definition delete_message ::
  "chat list \<Rightarrow> nat \<Rightarrow> nat \<Rightarrow> nat \<Rightarrow> nat \<Rightarrow> chat list \<times> reply" where
  "delete_message store userId chatId messageId now =
     (case findById store chatId of
        None \<Rightarrow> (store, Emit_error ChatNotFound)
      | Some c \<Rightarrow>
          (case deleteMessage c messageId userId now of
             Inl e \<Rightarrow> (store, Emit_error (Thrown e))
           | Inr c' \<Rightarrow> (persist c' store, Emit_message_deleted chatId messageId now)))"

text \<open>
  \<^verbatim>\<open>new Chat({participants: [{user: self}, {user: participantId}], post: postId, ...})\<close>
  with the schema defaults.
\<close>

definition new_chat :: "nat \<Rightarrow> nat \<Rightarrow> nat \<Rightarrow> nat \<Rightarrow> nat \<Rightarrow> chat" where
  "new_chat newChatId self participantId postId now =
     \<lparr>cid = newChatId,
      participants =
        [\<lparr>user = self, joinedAt = now, lastSeen = now, isActive = True\<rparr>,
         \<lparr>user = participantId, joinedAt = now, lastSeen = now, isActive = True\<rparr>],
      post = postId,
      messages = [],
      lastMessage = \<lparr>lm_content = None, lm_sender = None, lm_timestamp = None,
                      lm_messageType = ''text''\<rparr>,
      status = active, isResolved = False, resolvedAt = None, resolvedBy = None,
      lastActivity = now, autoCloseAt = now + week\<rparr>"

text \<open>\<^verbatim>\<open>if (initialMessage)\<close>: absent and the empty string are both falsy.\<close>

definition initial_text :: "string option \<Rightarrow> string option" where
  "initial_text s = (case s of None \<Rightarrow> None | Some t \<Rightarrow> if t = [] then None else Some t)"

definition create_chat ::
  "chat list \<Rightarrow> nat \<Rightarrow> nat \<Rightarrow> nat \<Rightarrow> string option \<Rightarrow> nat \<Rightarrow> nat \<Rightarrow> nat \<Rightarrow> chat list \<times> reply" where
  "create_chat store self postId participantId initialMessage newChatId newId now =
     (case findByPostAndUsers store postId [self, participantId] of
        Some existingChat \<Rightarrow> (store, Emit_chat_created existingChat)
      | None \<Rightarrow>
          (case save now (new_chat newChatId self participantId postId now)
                         (new_chat newChatId self participantId postId now) of
             Inl e \<Rightarrow> (store, Emit_error Failed)
           | Inr c \<Rightarrow>
               (case initial_text initialMessage of
                  Some text \<Rightarrow>
                    (case addMessage c newId self text ''text'' now of
                       Inl e \<Rightarrow> (store @ [c], Emit_error Failed)
                     | Inr c' \<Rightarrow> (persist c' (store @ [c]), Emit_chat_created c'))
                | None \<Rightarrow> (store @ [c], Emit_chat_created c))))"

subsection \<open>Sample documents\<close>

definition sample_message :: message where
  "sample_message =
     \<lparr>mid = 1, sender = 1, content = ''is this yours?'', messageType = ''text'',
      isRead = False, readAt = None, isEdited = False, editedAt = None,
      originalContent = None, isDeleted = False, deletedAt = None\<rparr>"

definition sample_participants :: "participant list" where
  "sample_participants =
     [\<lparr>user = 1, joinedAt = 0, lastSeen = 0, isActive = True\<rparr>,
      \<lparr>user = 2, joinedAt = 0, lastSeen = 0, isActive = True\<rparr>]"

text \<open>An active conversation about post 7 between users 1 and 2, with one message of user 1.\<close>

definition sample_chat :: chat where
  "sample_chat =
     \<lparr>cid = 10, participants = sample_participants, post = 7,
      messages = [sample_message],
      lastMessage = \<lparr>lm_content = Some ''is this yours?'', lm_sender = Some 1,
                      lm_timestamp = Some 3, lm_messageType = ''text''\<rparr>,
      status = active, isResolved = False, resolvedAt = None, resolvedBy = None,
      lastActivity = 3, autoCloseAt = 3 + week\<rparr>"

text \<open>The same conversation after it was closed at time 5.\<close>

definition closed_chat :: chat where
  "closed_chat = sample_chat\<lparr>status := closed, isResolved := True, resolvedAt := Some 5\<rparr>"

text \<open>A conversation that user 1 has left: the entry of user 1 is inactive.\<close>

definition left_chat :: chat where
  "left_chat =
     sample_chat\<lparr>participants :=
       [\<lparr>user = 1, joinedAt = 0, lastSeen = 0, isActive = False\<rparr>,
        \<lparr>user = 2, joinedAt = 0, lastSeen = 0, isActive = True\<rparr>]\<rparr>"

text \<open>User 2 sends "hello" to the closed conversation at time 100.\<close>

definition hello_message :: message where
  "hello_message =
     \<lparr>mid = 2, sender = 2, content = ''hello'', messageType = ''text'',
      isRead = False, readAt = None, isEdited = False, editedAt = None,
      originalContent = None, isDeleted = False, deletedAt = None\<rparr>"

definition closed_chat_sent :: chat where
  "closed_chat_sent =
     closed_chat\<lparr>messages := [sample_message, hello_message],
                   lastMessage := \<lparr>lm_content = Some ''hello'', lm_sender = Some 2,
                                    lm_timestamp = Some 100, lm_messageType = ''text''\<rparr>,
                   lastActivity := 100, autoCloseAt := 100 + week\<rparr>"

text \<open>User 1 deletes the message at time 5, and once more at time 9.\<close>

definition deleted_once :: chat where
  "deleted_once =
     sample_chat\<lparr>messages :=
                    [sample_message\<lparr>isDeleted := True, deletedAt := Some 5,
                                     content := tombstone\<rparr>],
                  lastActivity := 5\<rparr>"

definition deleted_twice :: chat where
  "deleted_twice =
     sample_chat\<lparr>messages :=
                    [sample_message\<lparr>isDeleted := True, deletedAt := Some 9,
                                     content := tombstone\<rparr>],
                  lastActivity := 9\<rparr>"

text \<open>User 1 edits the message at time 9, typing " hi " with a space on each side.\<close>

definition edited_once :: chat where
  "edited_once =
     sample_chat\<lparr>messages :=
                    [sample_message\<lparr>originalContent := Some ''is this yours?'',
                                     content := ''hi'', isEdited := True,
                                     editedAt := Some 9\<rparr>],
                  lastActivity := 9\<rparr>"

text \<open>User 1 reads the conversation at time 9: only the last-seen time changes.\<close>

definition seen_chat :: chat where
  "seen_chat =
     sample_chat\<lparr>participants :=
       [\<lparr>user = 1, joinedAt = 0, lastSeen = 9, isActive = True\<rparr>,
        \<lparr>user = 2, joinedAt = 0, lastSeen = 0, isActive = True\<rparr>]\<rparr>"

text \<open>User 1 edits the message a second time, at time 12.\<close>

definition edited_twice :: chat where
  "edited_twice =
     sample_chat\<lparr>messages :=
                    [sample_message\<lparr>originalContent := Some ''is this yours?'',
                                     content := ''hello'', isEdited := True,
                                     editedAt := Some 12\<rparr>],
                  lastActivity := 12\<rparr>"

text \<open>User 2 sends an empty list of message ids to mark as read, at time 9.\<close>

definition seen_by_2 :: chat where
  "seen_by_2 =
     sample_chat\<lparr>participants :=
       [\<lparr>user = 1, joinedAt = 0, lastSeen = 0, isActive = True\<rparr>,
        \<lparr>user = 2, joinedAt = 0, lastSeen = 9, isActive = True\<rparr>]\<rparr>"

text \<open>User 2 opens the conversation at time 9 and reads the message of user 1.\<close>

definition read_by_2 :: chat where
  "read_by_2 =
     sample_chat\<lparr>participants :=
       [\<lparr>user = 1, joinedAt = 0, lastSeen = 0, isActive = True\<rparr>,
        \<lparr>user = 2, joinedAt = 0, lastSeen = 9, isActive = True\<rparr>],
       messages := [sample_message\<lparr>isRead := True, readAt := Some 9\<rparr>],
       lastActivity := 9\<rparr>"

subsection \<open>Notions used in the statements\<close>

text \<open>The filter of \<^verbatim>\<open>getUnreadCount\<close>, named.\<close>

definition unread_for :: "nat \<Rightarrow> message \<Rightarrow> bool" where
  "unread_for p m = (\<not> isRead m \<and> sender m \<noteq> p \<and> \<not> isDeleted m)"

text \<open>The messages after \<^verbatim>\<open>markMessagesAsRead\<close> has run its loop.\<close>

definition marked :: "nat \<Rightarrow> nat list option \<Rightarrow> nat \<Rightarrow> message list \<Rightarrow> message list" where
  "marked u ids now ms =
     (case ids of Some is \<Rightarrow> foldl (mark_one u now) ms is | None \<Rightarrow> map (set_read_if_unread u now) ms)"

text \<open>A list of conversations in the order of the sort: no later one has a greater key.\<close>

definition newest_first :: "chat list \<Rightarrow> bool" where
  "newest_first cs = sorted_wrt (\<lambda>c d. \<not> ts_less (sort_key_of c) (sort_key_of d)) cs"

section \<open>Basic facts\<close>

lemmas sample_defs = sample_chat_def sample_message_def sample_participants_def closed_chat_def

lemmas schema_defs = trim_def is_space_def message_types_def valid_message_def valid_chat_def
  tombstone_def week_def

lemma trim_tombstone: "trim tombstone = tombstone"
  by (simp add: trim_def tombstone_def is_space_def)

lemma valid_tombstone: "valid_message m \<Longrightarrow> valid_message (deleted now m)"
  by (simp add: valid_message_def deleted_def trim_tombstone) (simp add: tombstone_def)

lemma message_by_id_SomeD:
  "message_by_id i ms = Some m \<Longrightarrow> m \<in> set ms \<and> mid m = i"
  by (induction ms) (auto simp: message_by_id_def split: if_splits)

lemma message_by_id_update:
  "message_by_id i ms = Some m \<Longrightarrow> mid (f m) = i \<Longrightarrow>
   message_by_id i (update_message i f ms) = Some (f m)"
  by (induction ms) (auto simp: message_by_id_def split: if_splits)

lemma update_message_None:
  "message_by_id i ms = None \<Longrightarrow> update_message i f ms = ms"
  by (induction ms) (auto simp: message_by_id_def split: if_splits)

lemma update_message_same:
  "message_by_id i ms = Some m \<Longrightarrow> (update_message i f ms = ms) = (f m = m)"
  by (induction ms) (auto simp: message_by_id_def split: if_splits)

lemma valid_update_message:
  "list_all valid_message ms \<Longrightarrow>
   (\<And>m. message_by_id i ms = Some m \<Longrightarrow> valid_message (f m)) \<Longrightarrow>
   list_all valid_message (update_message i f ms)"
  by (induction ms) (auto simp: message_by_id_def split: if_splits)

lemma save_Inr:
  "save now orig c = Inr c' \<Longrightarrow>
   valid_chat c \<and> c' = (if messages c \<noteq> messages orig then c\<lparr>lastActivity := now\<rparr> else c)"
  by (auto simp: save_def split: if_splits)

lemma save_valid:
  "valid_chat c \<Longrightarrow>
   save now orig c = Inr (if messages c \<noteq> messages orig then c\<lparr>lastActivity := now\<rparr> else c)"
  by (simp add: save_def)

section \<open>Sending to a conversation that is not active\<close>

text \<open>
  Neither \<^verbatim>\<open>addMessage\<close> nor the \<^verbatim>\<open>send_message\<close> handler reads \<open>status\<close>. On the
  closed sample conversation, user 2 (an active participant) sends "hello" at time 100:
  \<^verbatim>\<open>addMessage\<close> succeeds and the handler stores its result, so the stored conversation
  has the new message and a new \<open>lastActivity\<close>, \<open>lastMessage\<close> and \<open>autoCloseAt\<close>. What
  the handler emits is the error of its catch block, \<^verbatim>\<open>'Failed to send message'\<close>.
\<close>

theorem C1_send_on_closed_counterexample:
  "status closed_chat = closed
   \<and> addMessage closed_chat 2 2 ''hello'' ''text'' 100 = Inr closed_chat_sent
   \<and> send_message [closed_chat] 2 10 ''hello'' None 2 100
       = ([closed_chat_sent], Emit_error Failed)
   \<and> lastActivity closed_chat_sent \<noteq> lastActivity closed_chat
   \<and> lastMessage closed_chat_sent \<noteq> lastMessage closed_chat
   \<and> autoCloseAt closed_chat_sent \<noteq> autoCloseAt closed_chat"
  by (simp add: send_message_def findById_def isParticipant_def addMessage_def new_message_def
      populate_sender_def save_def persist_def sample_defs hello_message_def
      closed_chat_sent_def schema_defs)

text \<open>
  C1, as the code has it: the status of the conversation does not stop a send, and a
  send does alter the conversation. For a stored conversation of any status (closed
  and archived included) and a sender who is an active participant, with a content that
  passes the schema (not empty after trimming, at most 1000 characters, a known message
  type): \<^verbatim>\<open>addMessage\<close> succeeds; it appends the message, overwrites the \<open>lastMessage\<close>
  snapshot, sets \<open>lastActivity\<close> to now and \<open>autoCloseAt\<close> to now plus seven days, and
  leaves \<open>status\<close> as it was; and the collection after the \<^verbatim>\<open>send_message\<close> handler holds
  that conversation.
\<close>

theorem C1_send_ignores_status:
  assumes "findById store chatId = Some c"
    and "isParticipant c userId"
    and "valid_chat c"
    and "trim text \<noteq> []" and "length (trim text) \<le> 1000"
    and "mtype \<in> set message_types"
  shows "let c' = c\<lparr>messages := messages c @ [new_message newId userId text mtype],
                     lastMessage := \<lparr>lm_content = Some text, lm_sender = Some userId,
                                      lm_timestamp = Some now, lm_messageType = mtype\<rparr>,
                     lastActivity := now,
                     autoCloseAt := now + week\<rparr>
         in addMessage c newId userId text mtype now = Inr c'
          \<and> fst (send_message store userId chatId text (Some mtype) newId now)
              = persist c' store"
proof -
  have "valid_message (new_message newId userId text mtype)"
    using assms(4-6) by (simp add: valid_message_def new_message_def)
  with assms(3) have "addMessage c newId userId text mtype now =
      Inr (c\<lparr>messages := messages c @ [new_message newId userId text mtype],
             lastMessage := \<lparr>lm_content = Some text, lm_sender = Some userId,
                              lm_timestamp = Some now, lm_messageType = mtype\<rparr>,
             lastActivity := now,
             autoCloseAt := now + week\<rparr>)"
    by (auto simp: addMessage_def save_def valid_chat_def intro!: chat.equality)
  with assms(1,2) show ?thesis
    by (simp add: send_message_def populate_sender_def Let_def)
qed

theorem C1_send_ignores_status_witness:
  "status closed_chat = closed
   \<and> addMessage closed_chat 2 2 ''hello'' ''text'' 100 = Inr closed_chat_sent
   \<and> fst (send_message [closed_chat] 2 10 ''hello'' (Some ''text'') 2 100) = [closed_chat_sent]"
proof -
  have found: "findById [closed_chat] 10 = Some closed_chat"
    by (simp add: findById_def sample_defs)
  have member: "isParticipant closed_chat 2"
    by (simp add: isParticipant_def sample_defs)
  have valid: "valid_chat closed_chat"
    by (simp add: sample_defs schema_defs)
  have content_ok: "trim ''hello'' \<noteq> []" "length (trim ''hello'') \<le> 1000"
    by (simp_all add: trim_def is_space_def)
  have type_ok: "''text'' \<in> set message_types"
    by (simp add: message_types_def)
  from C1_send_ignores_status [OF found member valid content_ok type_ok,
      where newId = 2 and now = 100]
  show ?thesis
    by (simp add: persist_def new_message_def sample_defs hello_message_def closed_chat_sent_def
        schema_defs Let_def)
qed

section \<open>What a successful edit or delete leaves behind\<close>

lemma editMessage_Inr:
  assumes "editMessage c i txt u now = Inr c'"
  obtains m where "message_by_id i (messages c) = Some m" "sender m = u" "\<not> isDeleted m"
    "valid_chat c'"
    "messages c' = update_message i (edited txt now) (messages c)"
    "message_by_id i (messages c') = Some (edited txt now m)"
proof -
  from assms obtain m where m: "message_by_id i (messages c) = Some m" "sender m = u"
      "\<not> isDeleted m"
    and s: "save now c (c\<lparr>messages := update_message i (edited txt now) (messages c)\<rparr>) = Inr c'"
    by (auto simp: editMessage_def split: option.splits if_splits)
  from save_Inr [OF s] have v: "valid_chat c'" and
    ms: "messages c' = update_message i (edited txt now) (messages c)"
    by (auto simp: valid_chat_def split: if_splits)
  from m(1) have "mid m = i" by (simp add: message_by_id_SomeD)
  then have "mid (edited txt now m) = i" by (simp add: edited_def Let_def)
  with m(1) ms have "message_by_id i (messages c') = Some (edited txt now m)"
    by (simp add: message_by_id_update)
  with m v ms show thesis by (rule that)
qed

lemma deleteMessage_Inr:
  assumes "deleteMessage c i u now = Inr c'"
  obtains m where "message_by_id i (messages c) = Some m" "sender m = u"
    "valid_chat c'"
    "messages c' = update_message i (deleted now) (messages c)"
    "message_by_id i (messages c') = Some (deleted now m)"
proof -
  from assms obtain m where m: "message_by_id i (messages c) = Some m" "sender m = u"
    and s: "save now c (c\<lparr>messages := update_message i (deleted now) (messages c)\<rparr>) = Inr c'"
    by (auto simp: deleteMessage_def split: option.splits if_splits)
  from save_Inr [OF s] have v: "valid_chat c'" and
    ms: "messages c' = update_message i (deleted now) (messages c)"
    by (auto simp: valid_chat_def split: if_splits)
  from m(1) have "mid m = i" by (simp add: message_by_id_SomeD)
  then have "mid (deleted now m) = i" by (simp add: deleted_def)
  with m(1) ms have "message_by_id i (messages c') = Some (deleted now m)"
    by (simp add: message_by_id_update)
  with m v ms show thesis by (rule that)
qed

section \<open>Deleting a message twice\<close>

text \<open>
  \<^verbatim>\<open>deleteMessage\<close> does not look at \<open>isDeleted\<close>: every call assigns
  \<^verbatim>\<open>message.deletedAt = new Date()\<close>. User 1 deletes message 1 of the sample conversation
  at time 5 and again at time 9: both calls succeed, and \<open>deletedAt\<close> moves from 5 to 9.
\<close>

theorem C2_second_delete_counterexample:
  "deleteMessage sample_chat 1 1 5 = Inr deleted_once
   \<and> deleteMessage deleted_once 1 1 9 = Inr deleted_twice
   \<and> map deletedAt (messages deleted_once) = [Some 5]
   \<and> map deletedAt (messages deleted_twice) = [Some 9]"
  by (simp add: deleteMessage_def message_by_id_def deleted_def save_def sample_defs
      deleted_once_def deleted_twice_def schema_defs)

text \<open>
  C2, as the code has it: for a message that its sender has deleted (at time \<open>t1\<close>), a
  second delete by the same sender (at time \<open>t2\<close>) reports success; the content stays
  the fixed tombstone string and \<open>isDeleted\<close> stays true; \<open>deletedAt\<close> is overwritten
  with the time of the second call, and no other field of any message changes. The second
  call changes nothing at all only when it reads the same clock value as the first.
\<close>

theorem C2_second_delete:
  assumes "deleteMessage c i u t1 = Inr c1"
  shows "\<exists>m1 c2. message_by_id i (messages c1) = Some m1
           \<and> content m1 = tombstone \<and> isDeleted m1 \<and> deletedAt m1 = Some t1
           \<and> deleteMessage c1 i u t2 = Inr c2
           \<and> message_by_id i (messages c2) = Some (m1\<lparr>deletedAt := Some t2\<rparr>)
           \<and> messages c2 = update_message i (\<lambda>m. m\<lparr>deletedAt := Some t2\<rparr>) (messages c1)
           \<and> (t2 = t1 \<longrightarrow> c2 = c1)"
proof -
  from assms obtain m where m: "message_by_id i (messages c) = Some m" "sender m = u"
    and v1: "valid_chat c1"
    and m1: "message_by_id i (messages c1) = Some (deleted t1 m)"
    by (rule deleteMessage_Inr)
  let ?m1 = "deleted t1 m"
  let ?ms2 = "update_message i (deleted t2) (messages c1)"
  have again: "deleted t2 ?m1 = ?m1\<lparr>deletedAt := Some t2\<rparr>"
    by (simp add: deleted_def)
  have same: "update_message i (deleted t2) ms = update_message i (\<lambda>m. m\<lparr>deletedAt := Some t2\<rparr>) ms"
    if "message_by_id i ms = Some ?m1" for ms
    using that again by (induction ms) (auto simp: message_by_id_def split: if_splits)
  have valid2: "list_all valid_message ?ms2"
    using v1 by (intro valid_update_message)
       (auto dest!: message_by_id_SomeD intro: valid_tombstone simp: valid_chat_def list_all_iff)
  let ?c2 = "if ?ms2 \<noteq> messages c1 then c1\<lparr>messages := ?ms2, lastActivity := t2\<rparr>
             else c1\<lparr>messages := ?ms2\<rparr>"
  have del2: "deleteMessage c1 i u t2 = Inr ?c2"
    using m1 m(2) valid2
    by (simp add: deleteMessage_def deleted_def save_def valid_chat_def)
  have ms2: "messages ?c2 = update_message i (\<lambda>m. m\<lparr>deletedAt := Some t2\<rparr>) (messages c1)"
    using same [OF m1] by simp
  have mid1: "mid (?m1\<lparr>deletedAt := Some t2\<rparr>) = i"
    using m1 by (auto dest: message_by_id_SomeD)
  have look2: "message_by_id i (messages ?c2) = Some (?m1\<lparr>deletedAt := Some t2\<rparr>)"
    unfolding ms2 using m1 mid1 by (rule message_by_id_update)
  have noop: "t2 = t1 \<longrightarrow> ?c2 = c1"
  proof
    assume "t2 = t1"
    then have "deleted t2 ?m1 = ?m1" by (simp add: deleted_def)
    with m1 have "?ms2 = messages c1" by (simp add: update_message_same)
    then show "?c2 = c1" by simp
  qed
  have fields: "content ?m1 = tombstone" "isDeleted ?m1" "deletedAt ?m1 = Some t1"
    by (simp_all add: deleted_def trim_tombstone)
  from m1 fields del2 look2 ms2 noop show ?thesis by blast
qed

theorem C2_second_delete_witness:
  "deleteMessage sample_chat 1 1 5 = Inr deleted_once
   \<and> deleteMessage deleted_once 1 1 9 = Inr deleted_twice"
proof -
  have first: "deleteMessage sample_chat 1 1 5 = Inr deleted_once"
    by (simp add: deleteMessage_def message_by_id_def deleted_def save_def sample_defs
        deleted_once_def deleted_twice_def schema_defs)
  from C2_second_delete [OF first, of 9] obtain c2 where
    "deleteMessage deleted_once 1 1 9 = Inr c2"
    "messages c2 = update_message 1 (\<lambda>m. m\<lparr>deletedAt := Some 9\<rparr>) (messages deleted_once)"
    by blast
  moreover have "deleteMessage deleted_once 1 1 9 = Inr deleted_twice"
    by (simp add: deleteMessage_def message_by_id_def deleted_def save_def sample_defs
        deleted_once_def deleted_twice_def schema_defs)
  ultimately show ?thesis using first by simp
qed

section \<open>Closing a conversation twice\<close>

text \<open>
  \<^verbatim>\<open>closeChat\<close> does not look at \<open>status\<close>: every call assigns
  \<^verbatim>\<open>this.resolvedAt = new Date()\<close>. The sample conversation was closed at time 5; a
  second close at time 9 succeeds and moves \<open>resolvedAt\<close> to 9.
\<close>

theorem C3_second_close_counterexample:
  "status closed_chat = closed \<and> resolvedAt closed_chat = Some 5
   \<and> closeChat closed_chat None 9 = Inr (closed_chat\<lparr>resolvedAt := Some 9\<rparr>)
   \<and> closed_chat\<lparr>resolvedAt := Some 9\<rparr> \<noteq> closed_chat"
  by (simp add: closeChat_def save_def sample_defs schema_defs)

text \<open>
  C3, as the code has it: on a conversation whose messages pass the schema, close
  succeeds and sets \<open>status\<close> to closed, \<open>isResolved\<close> to true, \<open>resolvedAt\<close> to now, and
  \<open>resolvedBy\<close> to \<open>closedBy\<close> when that is given. A second close raises no error and
  keeps \<open>status\<close> and \<open>isResolved\<close>, but it overwrites \<open>resolvedAt\<close> with the time of
  the second call, and \<open>resolvedBy\<close> when \<open>closedBy\<close> is given; no other field changes.
\<close>

theorem C3_close_twice:
  assumes "valid_chat c"
  shows "let c1 = c\<lparr>status := closed, isResolved := True, resolvedAt := Some t1,
                     resolvedBy := (case by1 of Some u \<Rightarrow> Some u | None \<Rightarrow> resolvedBy c)\<rparr>
         in closeChat c by1 t1 = Inr c1
          \<and> closeChat c1 by2 t2 =
              Inr (c1\<lparr>resolvedAt := Some t2,
                      resolvedBy := (case by2 of Some u \<Rightarrow> Some u | None \<Rightarrow> resolvedBy c1)\<rparr>)"
  using assms by (simp add: closeChat_def save_def valid_chat_def Let_def)

theorem C3_close_twice_witness:
  "closeChat sample_chat None 5 = Inr closed_chat
   \<and> closeChat closed_chat (Some 2) 9 =
       Inr (closed_chat\<lparr>resolvedAt := Some 9, resolvedBy := Some 2\<rparr>)"
proof -
  have valid: "valid_chat sample_chat"
    by (simp add: sample_defs schema_defs)
  from C3_close_twice [OF valid, of None 5 "Some 2" 9] show ?thesis
    by (simp add: sample_defs Let_def)
qed

section \<open>Editing a message\<close>

text \<open>
  The schema declares \<^verbatim>\<open>trim: true\<close> on \<open>content\<close>, so
  \<^verbatim>\<open>message.content = newContent\<close> stores the new text without the white space at its
  ends. User 1 edits message 1 to " hi ": the stored content is "hi".
\<close>

theorem C4_edit_trims_counterexample:
  "editMessage sample_chat 1 '' hi '' 1 9 = Inr edited_once
   \<and> map content (messages edited_once) = [''hi'']
   \<and> ''hi'' \<noteq> '' hi ''"
  by (simp add: editMessage_def message_by_id_def edited_def save_def sample_defs
      edited_once_def edited_twice_def schema_defs)

text \<open>
  C4, as the code has it: every successful edit (it is by the message's sender) sets
  \<open>isEdited\<close>, sets \<open>editedAt\<close> to now, and replaces \<open>content\<close> with the new text
  trimmed of white space at both ends. If the message had not been edited before,
  \<open>originalContent\<close> becomes the content before the edit; if it had, \<open>originalContent\<close>
  is unchanged.
\<close>

theorem C4_edit:
  assumes "editMessage c i txt u now = Inr c'"
  shows "\<exists>m m'. message_by_id i (messages c) = Some m \<and> sender m = u
           \<and> message_by_id i (messages c') = Some m'
           \<and> content m' = trim txt \<and> isEdited m' \<and> editedAt m' = Some now
           \<and> originalContent m' = (if isEdited m then originalContent m else Some (content m))"
proof -
  from assms obtain m where "message_by_id i (messages c) = Some m" "sender m = u"
    "message_by_id i (messages c') = Some (edited txt now m)"
    by (rule editMessage_Inr)
  moreover have "content (edited txt now m) = trim txt" "isEdited (edited txt now m)"
    "editedAt (edited txt now m) = Some now"
    "originalContent (edited txt now m) = (if isEdited m then originalContent m else Some (content m))"
    by (simp_all add: edited_def Let_def)
  ultimately show ?thesis by blast
qed

theorem C4_edit_witness:
  "editMessage sample_chat 1 '' hi '' 1 9 = Inr edited_once
   \<and> editMessage edited_once 1 ''hello'' 1 12 = Inr edited_twice
   \<and> map originalContent (messages sample_chat) = [None]
   \<and> map originalContent (messages edited_once) = [Some ''is this yours?'']
   \<and> map originalContent (messages edited_twice) = [Some ''is this yours?'']"
proof -
  have first: "editMessage sample_chat 1 '' hi '' 1 9 = Inr edited_once"
    by (simp add: editMessage_def message_by_id_def edited_def save_def sample_defs
        edited_once_def edited_twice_def schema_defs)
  have second: "editMessage edited_once 1 ''hello'' 1 12 = Inr edited_twice"
    by (simp add: editMessage_def message_by_id_def edited_def save_def sample_defs
        edited_once_def edited_twice_def schema_defs)
  from C4_edit [OF first] obtain m m' where
    "message_by_id 1 (messages sample_chat) = Some m"
    "message_by_id 1 (messages edited_once) = Some m'"
    "originalContent m' = (if isEdited m then originalContent m else Some (content m))"
    by blast
  then have one: "map originalContent (messages edited_once) = [Some ''is this yours?'']"
    by (auto simp: message_by_id_def sample_defs edited_once_def edited_twice_def split: if_splits)
  from C4_edit [OF second] obtain n n' where
    "message_by_id 1 (messages edited_once) = Some n"
    "message_by_id 1 (messages edited_twice) = Some n'"
    "originalContent n' = (if isEdited n then originalContent n else Some (content n))"
    by blast
  then have two: "map originalContent (messages edited_twice) = [Some ''is this yours?'']"
    by (auto simp: message_by_id_def sample_defs edited_once_def edited_twice_def split: if_splits)
  from first second one two show ?thesis
    by (simp add: sample_defs edited_once_def edited_twice_def)
qed

section \<open>Failures of an edit\<close>

text \<open>
  C5: for a stored conversation, \<^verbatim>\<open>editMessage\<close> fails with \<open>MessageNotFound\<close> when no
  message has the id, with \<open>NotAuthorized\<close> when the message has another sender than
  the requester, and with \<open>MessageDeleted\<close> when the requester's own message is deleted
  (the checks are made in this order). On every failure of \<^verbatim>\<open>editMessage\<close> the handler
  emits the error to the caller and the collection, hence the message, is unchanged.
\<close>

theorem C5_edit_failures:
  assumes "findById store chatId = Some c"
  shows "(message_by_id i (messages c) = None \<longrightarrow>
            editMessage c i txt u now = Inl MessageNotFound)
       \<and> (\<forall>m. message_by_id i (messages c) = Some m \<and> sender m \<noteq> u \<longrightarrow>
            editMessage c i txt u now = Inl NotAuthorized)
       \<and> (\<forall>m. message_by_id i (messages c) = Some m \<and> sender m = u \<and> isDeleted m \<longrightarrow>
            editMessage c i txt u now = Inl MessageDeleted)
       \<and> (\<forall>e. editMessage c i txt u now = Inl e \<longrightarrow>
            edit_message store u chatId i txt now = (store, Emit_error (Thrown e)))"
  using assms by (simp add: edit_message_def editMessage_def)

theorem C5_edit_failures_witness:
  "edit_message [deleted_once] 1 10 8 ''hi'' 9 = ([deleted_once], Emit_error (Thrown MessageNotFound))
   \<and> edit_message [deleted_once] 2 10 1 ''hi'' 9 = ([deleted_once], Emit_error (Thrown NotAuthorized))
   \<and> edit_message [deleted_once] 1 10 1 ''hi'' 9 = ([deleted_once], Emit_error (Thrown MessageDeleted))"
proof -
  have found: "findById [deleted_once] 10 = Some deleted_once"
    by (simp add: findById_def sample_defs deleted_once_def)
  have absent: "message_by_id 8 (messages deleted_once) = None"
    by (simp add: message_by_id_def sample_defs deleted_once_def)
  have present: "message_by_id 1 (messages deleted_once) =
      Some (sample_message\<lparr>isDeleted := True, deletedAt := Some 5, content := tombstone\<rparr>)"
    by (simp add: message_by_id_def sample_defs deleted_once_def)
  from C5_edit_failures [OF found, of 8 "''hi''" 1 9] absent
  have "edit_message [deleted_once] 1 10 8 ''hi'' 9 =
      ([deleted_once], Emit_error (Thrown MessageNotFound))"
    by simp
  moreover from C5_edit_failures [OF found, of 1 "''hi''" 2 9] present
  have "edit_message [deleted_once] 2 10 1 ''hi'' 9 =
      ([deleted_once], Emit_error (Thrown NotAuthorized))"
    by (simp add: sample_defs deleted_once_def)
  moreover from C5_edit_failures [OF found, of 1 "''hi''" 1 9] present
  have "edit_message [deleted_once] 1 10 1 ''hi'' 9 =
      ([deleted_once], Emit_error (Thrown MessageDeleted))"
    by (simp add: sample_defs deleted_once_def)
  ultimately show ?thesis by simp
qed

section \<open>Listing the conversations of a user\<close>

text \<open>
  What the query returns: the stored conversations in which some participant entry is
  the user, some participant entry (the same or another) is active, and the status is
  the one asked for; newest \<open>lastMessage.timestamp\<close> first, null last.
\<close>

lemma set_insert_desc: "set (insert_desc c cs) = insert c (set cs)"
  by (induction cs) auto

lemma set_sort_desc: "set (sort_desc cs) = set cs"
  unfolding sort_desc_def by (induction cs) (auto simp: set_insert_desc)

lemma findUserChats_set:
  "set (findUserChats store u st) = {c \<in> set store. matches_user_chats u st c}"
  by (simp add: findUserChats_def set_sort_desc)

lemma ts_less_trans: "\<not> ts_less a b \<Longrightarrow> \<not> ts_less b c \<Longrightarrow> \<not> ts_less a c"
  by (auto simp: ts_less_def split: option.splits)

lemma ts_less_asym: "ts_less a b \<Longrightarrow> \<not> ts_less b a"
  by (auto simp: ts_less_def split: option.splits)

lemma newest_first_insert: "newest_first cs \<Longrightarrow> newest_first (insert_desc c cs)"
  unfolding newest_first_def
  by (induction cs) (auto simp: set_insert_desc dest: ts_less_asym, meson ts_less_trans)

lemma findUserChats_sorted: "newest_first (findUserChats store u st)"
proof -
  have "newest_first (sort_desc cs)" for cs
    unfolding sort_desc_def
    by (induction cs) (simp_all add: newest_first_insert, simp add: newest_first_def)
  then show ?thesis by (simp add: findUserChats_def)
qed

text \<open>
  C6 says that \<^verbatim>\<open>findUserChats\<close> returns the conversations in which the user's own
  participant entry is active. User 1 has left the conversation \<open>left_chat\<close> (the entry
  of user 1 is inactive, so the handlers refuse user 1 as a participant), user 2 is still
  active in it: the query for user 1 returns it, because the two conditions on
  \<open>participants\<close> are met by different entries.
\<close>

theorem C6_left_participant_listed:
  "map user (participants left_chat) = [1, 2]
   \<and> map isActive (participants left_chat) = [False, True]
   \<and> isParticipant left_chat 1 = False
   \<and> findUserChats [left_chat] 1 active = [left_chat]"
  by (simp add: findUserChats_def matches_user_chats_def sort_desc_def isParticipant_def
      sample_defs left_chat_def)

section \<open>Creating a conversation twice\<close>

lemma matches_swap: "matches_post_users p [b, a] = matches_post_users p [a, b]"
  by (auto simp: matches_post_users_def fun_eq_iff)

lemma findByPostAndUsers_swap:
  "findByPostAndUsers store p [b, a] = findByPostAndUsers store p [a, b]"
  by (simp add: findByPostAndUsers_def matches_swap)

lemma find_append_new:
  "find P store = None \<Longrightarrow> P c \<Longrightarrow> find P (store @ [c]) = Some c"
  by (induction store) (auto split: if_splits)

lemma find_persist_new:
  "find P store = None \<Longrightarrow> P c' \<Longrightarrow> cid c = cid c' \<Longrightarrow>
   find P (persist c' (store @ [c])) = Some c'"
  by (induction store) (auto simp: persist_def split: if_splits)

lemma create_chat_found:
  "findByPostAndUsers store p [a, b] = Some c \<Longrightarrow>
   create_chat store a p b im k j t = (store, Emit_chat_created c)"
  by (simp add: create_chat_def)

lemma save_new_chat: "save t (new_chat k a b p t) (new_chat k a b p t) = Inr (new_chat k a b p t)"
  by (simp add: save_def valid_chat_def new_chat_def)

lemma matches_new_chat: "matches_post_users p [a, b] (new_chat k a b p t)"
  by (simp add: matches_post_users_def new_chat_def)

lemma addMessage_keeps:
  "addMessage c j u txt mt t = Inr c' \<Longrightarrow>
   cid c' = cid c \<and> post c' = post c \<and> participants c' = participants c \<and> status c' = status c"
  by (auto simp: addMessage_def dest!: save_Inr split: if_splits)

text \<open>
  The first call does not always return a conversation. With an initial message of one
  space (empty after trimming, so \<^verbatim>\<open>save()\<close> rejects it) the first call emits
  \<^verbatim>\<open>'Failed to create chat'\<close>; the second call returns a conversation.
\<close>

theorem C7_failed_first_call_counterexample:
  "create_chat [] 1 42 2 (Some '' '') 10 1 100 = ([new_chat 10 1 2 42 100], Emit_error Failed)
   \<and> create_chat [new_chat 10 1 2 42 100] 1 42 2 (Some '' '') 11 1 101
       = ([new_chat 10 1 2 42 100], Emit_chat_created (new_chat 10 1 2 42 100))"
  by (simp add: create_chat_def findByPostAndUsers_def matches_post_users_def new_chat_def
      initial_text_def addMessage_def new_message_def save_def schema_defs)

text \<open>
  C7, as the code has it: whenever a call of \<^verbatim>\<open>create_chat\<close> for a post and a pair of
  users has returned a conversation, a second call for the same post and pair, by either
  of the two users, returns that same conversation and stores nothing.
\<close>

theorem C7_create_twice:
  assumes "create_chat store a p b im1 k1 j1 t1 = (store1, Emit_chat_created c1)"
  shows "create_chat store1 a p b im2 k2 j2 t2 = (store1, Emit_chat_created c1)
       \<and> create_chat store1 b p a im2 k2 j2 t2 = (store1, Emit_chat_created c1)"
proof -
  have found: "findByPostAndUsers store1 p [a, b] = Some c1"
  proof (cases "findByPostAndUsers store p [a, b]")
    case (Some e)
    with assms have "store1 = store" "c1 = e"
      by (auto simp: create_chat_def)
    with Some show ?thesis by simp
  next
    case None
    let ?fresh = "new_chat k1 a b p t1"
    let ?P = "matches_post_users p [a, b]"
    from None have none: "find ?P store = None"
      by (simp add: findByPostAndUsers_def)
    show ?thesis
    proof (cases "initial_text im1")
      case no_text: None
      with None assms have "store1 = store @ [?fresh]" "c1 = ?fresh"
        by (auto simp: create_chat_def save_new_chat)
      with none show ?thesis
        by (simp add: findByPostAndUsers_def find_append_new matches_new_chat)
    next
      case (Some body)
      show ?thesis
      proof (cases "addMessage ?fresh j1 a body ''text'' t1")
        case (Inl e)
        with None Some assms show ?thesis
          by (simp add: create_chat_def save_new_chat)
      next
        case (Inr c')
        with None Some assms have *: "store1 = persist c' (store @ [?fresh])" "c1 = c'"
          by (auto simp: create_chat_def save_new_chat)
        from addMessage_keeps [OF Inr] have "cid ?fresh = cid c'" "?P c'"
          using matches_new_chat [of p a b k1 t1] by (simp_all add: matches_post_users_def)
        with none have "find ?P (persist c' (store @ [?fresh])) = Some c'"
          by (simp add: find_persist_new)
        with * show ?thesis by (simp add: findByPostAndUsers_def)
      qed
    qed
  qed
  then have "create_chat store1 a p b im2 k2 j2 t2 = (store1, Emit_chat_created c1)"
    by (rule create_chat_found)
  moreover from found have "findByPostAndUsers store1 p [b, a] = Some c1"
    by (simp add: findByPostAndUsers_swap)
  then have "create_chat store1 b p a im2 k2 j2 t2 = (store1, Emit_chat_created c1)"
    by (rule create_chat_found)
  ultimately show ?thesis by simp
qed

theorem C7_create_twice_witness:
  "create_chat [] 1 42 2 None 10 1 100
       = ([new_chat 10 1 2 42 100], Emit_chat_created (new_chat 10 1 2 42 100))
   \<and> create_chat [new_chat 10 1 2 42 100] 1 42 2 None 11 1 101
       = ([new_chat 10 1 2 42 100], Emit_chat_created (new_chat 10 1 2 42 100))
   \<and> create_chat [new_chat 10 1 2 42 100] 2 42 1 None 11 1 101
       = ([new_chat 10 1 2 42 100], Emit_chat_created (new_chat 10 1 2 42 100))"
proof -
  have first: "create_chat [] 1 42 2 None 10 1 100 =
      ([new_chat 10 1 2 42 100], Emit_chat_created (new_chat 10 1 2 42 100))"
    by (simp add: create_chat_def findByPostAndUsers_def initial_text_def save_new_chat)
  from C7_create_twice [OF first, of None 11 1 101] first show ?thesis
    by simp
qed

section \<open>The unread count\<close>

lemma getUnreadCount_unread_for:
  "getUnreadCount c p = length (filter (unread_for p) (messages c))"
  by (simp add: getUnreadCount_def unread_for_def [abs_def])

lemma unread_update_le:
  "(\<And>m. unread_for p (f m) \<Longrightarrow> unread_for p m) \<Longrightarrow>
   length (filter (unread_for p) (update_message i f ms)) \<le> length (filter (unread_for p) ms)"
  by (induction ms) auto

lemma unread_mark_one_le:
  "length (filter (unread_for p) (mark_one u now ms i)) \<le> length (filter (unread_for p) ms)"
proof -
  have "length (filter (unread_for p) (update_message i (set_read now) ms))
          \<le> length (filter (unread_for p) ms)"
    by (rule unread_update_le) (simp add: set_read_def unread_for_def)
  then show ?thesis
    by (simp add: mark_one_def split: option.splits)
qed

lemma unread_foldl_le:
  "length (filter (unread_for p) (foldl (mark_one u now) ms ids))
     \<le> length (filter (unread_for p) ms)"
proof (induction ids arbitrary: ms)
  case Nil
  show ?case by simp
next
  case (Cons i ids)
  have "length (filter (unread_for p) (foldl (mark_one u now) (mark_one u now ms i) ids))
          \<le> length (filter (unread_for p) (mark_one u now ms i))"
    by (rule Cons.IH)
  also have "\<dots> \<le> length (filter (unread_for p) ms)"
    by (rule unread_mark_one_le)
  finally show ?case by simp
qed

lemma unread_mark_all: "filter (unread_for p) (map (set_read_if_unread p now) ms) = []"
  by (induction ms) (auto simp: set_read_if_unread_def set_read_def unread_for_def)

lemma valid_set_read: "valid_message (set_read now m) = valid_message m"
  by (simp add: valid_message_def set_read_def)

lemma valid_mark_one:
  assumes "list_all valid_message ms"
  shows "list_all valid_message (mark_one u now ms i)"
proof -
  have "valid_message (set_read now m)" if "message_by_id i ms = Some m" for m
    using that assms by (auto dest!: message_by_id_SomeD simp: valid_set_read list_all_iff)
  with assms have "list_all valid_message (update_message i (set_read now) ms)"
    by (rule valid_update_message)
  with assms show ?thesis
    by (simp add: mark_one_def split: option.splits)
qed

lemma valid_foldl_mark:
  "list_all valid_message ms \<Longrightarrow> list_all valid_message (foldl (mark_one u now) ms ids)"
  by (induction ids arbitrary: ms) (simp_all add: valid_mark_one)

lemma valid_mark_all:
  "list_all valid_message ms \<Longrightarrow> list_all valid_message (map (set_read_if_unread u now) ms)"
  by (induction ms) (auto simp: set_read_if_unread_def valid_set_read)

lemma markMessagesAsRead_valid:
  assumes "valid_chat c"
  obtains c' where "markMessagesAsRead c u ids now = Inr c'"
    "messages c' = marked u ids now (messages c)"
    "autoCloseAt c' = autoCloseAt c"
    "lastActivity c' = (if messages c' \<noteq> messages c then now else lastActivity c)"
proof -
  let ?c1 = "c\<lparr>messages := marked u ids now (messages c),
               participants := update_participant u (\<lambda>p. p\<lparr>lastSeen := now\<rparr>) (participants c)\<rparr>"
  have run: "markMessagesAsRead c u ids now = save now c ?c1"
    by (simp add: markMessagesAsRead_def marked_def Let_def)
  have "list_all valid_message (marked u ids now (messages c))"
    using assms by (cases ids) (simp_all add: marked_def valid_chat_def valid_foldl_mark valid_mark_all)
  then have "valid_chat ?c1"
    by (simp add: valid_chat_def)
  from save_valid [OF this, of now c] run
  have res: "markMessagesAsRead c u ids now =
      Inr (if messages ?c1 \<noteq> messages c then ?c1\<lparr>lastActivity := now\<rparr> else ?c1)"
    by simp
  show thesis
    by (rule that [OF res]) simp_all
qed

text \<open>
  The count does not always go down. User 1 has nothing unread in the sample
  conversation: the count is 0 before and after. User 2 has one unread message and
  sends an empty list of ids (an empty array is truthy, so nothing is marked): the count
  is 1 before and after.
\<close>

theorem C8_not_strictly_decreasing_counterexample:
  "getUnreadCount sample_chat 1 = 0
   \<and> markMessagesAsRead sample_chat 1 None 9 = Inr seen_chat
   \<and> getUnreadCount seen_chat 1 = 0
   \<and> getUnreadCount sample_chat 2 = 1
   \<and> markMessagesAsRead sample_chat 2 (Some []) 9 = Inr seen_by_2
   \<and> getUnreadCount seen_by_2 2 = 1"
  by (simp add: getUnreadCount_def markMessagesAsRead_def set_read_if_unread_def set_read_def
      save_def sample_defs seen_chat_def seen_by_2_def read_by_2_def schema_defs)

text \<open>
  C8, as the code has it: the unread count of a user is the number of messages that are
  not deleted, not sent by the user and not read; the user's own messages never count.
  On a conversation whose messages pass the schema, marking as read succeeds and never
  increases the user's count; with the message ids omitted the count is zero afterwards
  (so it goes down exactly when it was positive).
\<close>

theorem C8_unread_count:
  assumes "valid_chat c"
  shows "getUnreadCount c p =
           length (filter (\<lambda>m. \<not> isDeleted m \<and> sender m \<noteq> p \<and> \<not> isRead m) (messages c))
       \<and> getUnreadCount (c\<lparr>messages := filter (\<lambda>m. sender m \<noteq> p) (messages c)\<rparr>) p
           = getUnreadCount c p
       \<and> (\<exists>c'. markMessagesAsRead c p ids now = Inr c'
             \<and> getUnreadCount c' p \<le> getUnreadCount c p
             \<and> (ids = None \<longrightarrow> getUnreadCount c' p = 0))"
proof -
  have count: "getUnreadCount c p =
      length (filter (\<lambda>m. \<not> isDeleted m \<and> sender m \<noteq> p \<and> \<not> isRead m) (messages c))"
    unfolding getUnreadCount_def by (rule arg_cong [where f = length], rule filter_cong) auto
  have own: "getUnreadCount (c\<lparr>messages := filter (\<lambda>m. sender m \<noteq> p) (messages c)\<rparr>) p
      = getUnreadCount c p"
    unfolding getUnreadCount_def
    by (simp, rule arg_cong [where f = length], rule filter_cong) auto
  from assms obtain c' where c': "markMessagesAsRead c p ids now = Inr c'"
    "messages c' = marked p ids now (messages c)"
    by (rule markMessagesAsRead_valid)
  have le: "getUnreadCount c' p \<le> getUnreadCount c p"
    by (cases ids)
       (simp_all add: getUnreadCount_unread_for c'(2) marked_def unread_mark_all unread_foldl_le)
  have zero: "ids = None \<longrightarrow> getUnreadCount c' p = 0"
    by (simp add: getUnreadCount_unread_for c'(2) marked_def unread_mark_all)
  from count own c'(1) le zero show ?thesis by blast
qed

theorem C8_unread_count_witness:
  "markMessagesAsRead sample_chat 2 None 9 = Inr read_by_2
   \<and> getUnreadCount sample_chat 2 = 1 \<and> getUnreadCount read_by_2 2 = 0"
proof -
  have valid: "valid_chat sample_chat"
    by (simp add: sample_defs schema_defs)
  have run: "markMessagesAsRead sample_chat 2 None 9 = Inr read_by_2"
    by (simp add: markMessagesAsRead_def set_read_if_unread_def set_read_def
      save_def sample_defs seen_chat_def seen_by_2_def read_by_2_def schema_defs)
  from C8_unread_count [OF valid, of 2 None 9] run
  have "getUnreadCount read_by_2 2 = 0" by auto
  moreover have "getUnreadCount sample_chat 2 = 1"
    by (simp add: getUnreadCount_def sample_defs seen_chat_def seen_by_2_def read_by_2_def)
  ultimately show ?thesis using run by simp
qed

section \<open>Edit and delete on a conversation that is not active\<close>






lemma status_after_save: "save now orig c = Inr c' \<Longrightarrow> status c' = status c"
  by (auto dest!: save_Inr split: if_splits)




section \<open>Last activity and the auto-close deadline\<close>

lemma save_messages_Inr:
  "save now c (c\<lparr>messages := ms\<rparr>) = Inr c' \<Longrightarrow>
   messages c' = ms \<and> autoCloseAt c' = autoCloseAt c
   \<and> lastActivity c' = (if ms \<noteq> messages c then now else lastActivity c)"
  by (auto simp: save_def split: if_splits)

lemma edited_changes: "editedAt m \<noteq> Some now \<Longrightarrow> edited txt now m \<noteq> m"
  by (auto simp: edited_def Let_def dest: arg_cong [where f = editedAt])

lemma deleted_changes: "deletedAt m \<noteq> Some now \<Longrightarrow> deleted now m \<noteq> m"
  by (auto simp: deleted_def dest: arg_cong [where f = deletedAt])

text \<open>
  C10: a successful edit, delete or mark-as-read leaves \<open>autoCloseAt\<close> unchanged, and
  sets \<open>lastActivity\<close> to now exactly when it has modified a message (the pre-save hook);
  an edit or delete modifies the message whenever the message's \<open>editedAt\<close> or
  \<open>deletedAt\<close> is not already the current time. A successful \<^verbatim>\<open>addMessage\<close> sets
  \<open>autoCloseAt\<close> to now plus seven days and \<open>lastActivity\<close> to now.
\<close>

theorem C10_last_activity_and_deadline:
  "(\<forall>c'. editMessage c i txt u now = Inr c' \<longrightarrow>
      autoCloseAt c' = autoCloseAt c
      \<and> lastActivity c' = (if messages c' \<noteq> messages c then now else lastActivity c)
      \<and> (\<forall>m. message_by_id i (messages c) = Some m \<and> editedAt m \<noteq> Some now \<longrightarrow>
             lastActivity c' = now))
   \<and> (\<forall>c'. deleteMessage c i u now = Inr c' \<longrightarrow>
      autoCloseAt c' = autoCloseAt c
      \<and> lastActivity c' = (if messages c' \<noteq> messages c then now else lastActivity c)
      \<and> (\<forall>m. message_by_id i (messages c) = Some m \<and> deletedAt m \<noteq> Some now \<longrightarrow>
             lastActivity c' = now))
   \<and> (\<forall>c'. markMessagesAsRead c u ids now = Inr c' \<longrightarrow>
      autoCloseAt c' = autoCloseAt c
      \<and> lastActivity c' = (if messages c' \<noteq> messages c then now else lastActivity c))
   \<and> (\<forall>c'. addMessage c j u txt mt now = Inr c' \<longrightarrow>
      autoCloseAt c' = now + week \<and> lastActivity c' = now)"
proof -
  have edit: "autoCloseAt c' = autoCloseAt c
      \<and> lastActivity c' = (if messages c' \<noteq> messages c then now else lastActivity c)
      \<and> (\<forall>m. message_by_id i (messages c) = Some m \<and> editedAt m \<noteq> Some now \<longrightarrow>
             lastActivity c' = now)"
    if run: "editMessage c i txt u now = Inr c'" for c'
  proof -
    from run have "save now c (c\<lparr>messages := update_message i (edited txt now) (messages c)\<rparr>) = Inr c'"
      by (auto simp: editMessage_def split: option.splits if_splits)
    from save_messages_Inr [OF this]
    have *: "messages c' = update_message i (edited txt now) (messages c)"
      "autoCloseAt c' = autoCloseAt c"
      "lastActivity c' = (if messages c' \<noteq> messages c then now else lastActivity c)"
      by simp_all
    have "messages c' \<noteq> messages c"
      if "message_by_id i (messages c) = Some m" "editedAt m \<noteq> Some now" for m
      using that *(1) by (simp add: update_message_same edited_changes)
    with * show ?thesis by simp
  qed
  have delete: "autoCloseAt c' = autoCloseAt c
      \<and> lastActivity c' = (if messages c' \<noteq> messages c then now else lastActivity c)
      \<and> (\<forall>m. message_by_id i (messages c) = Some m \<and> deletedAt m \<noteq> Some now \<longrightarrow>
             lastActivity c' = now)"
    if run: "deleteMessage c i u now = Inr c'" for c'
  proof -
    from run have "save now c (c\<lparr>messages := update_message i (deleted now) (messages c)\<rparr>) = Inr c'"
      by (auto simp: deleteMessage_def split: option.splits if_splits)
    from save_messages_Inr [OF this]
    have *: "messages c' = update_message i (deleted now) (messages c)"
      "autoCloseAt c' = autoCloseAt c"
      "lastActivity c' = (if messages c' \<noteq> messages c then now else lastActivity c)"
      by simp_all
    have "messages c' \<noteq> messages c"
      if "message_by_id i (messages c) = Some m" "deletedAt m \<noteq> Some now" for m
      using that *(1) by (simp add: update_message_same deleted_changes)
    with * show ?thesis by simp
  qed
  have mark: "autoCloseAt c' = autoCloseAt c
      \<and> lastActivity c' = (if messages c' \<noteq> messages c then now else lastActivity c)"
    if "markMessagesAsRead c u ids now = Inr c'" for c'
    using that
    by (auto simp: markMessagesAsRead_def Let_def save_def split: if_splits)
  have add: "autoCloseAt c' = now + week \<and> lastActivity c' = now"
    if "addMessage c j u txt mt now = Inr c'" for c'
    using that by (auto simp: addMessage_def save_def split: if_splits)
  from edit delete mark add show ?thesis by blast
qed

theorem C10_last_activity_and_deadline_witness:
  "editMessage sample_chat 1 '' hi '' 1 9 = Inr edited_once
   \<and> deleteMessage sample_chat 1 1 5 = Inr deleted_once
   \<and> markMessagesAsRead sample_chat 2 None 9 = Inr read_by_2
   \<and> markMessagesAsRead sample_chat 2 (Some [1]) 9 = Inr read_by_2
   \<and> addMessage closed_chat 2 2 ''hello'' ''text'' 100 = Inr closed_chat_sent
   \<and> lastActivity edited_once = 9 \<and> autoCloseAt edited_once = autoCloseAt sample_chat
   \<and> lastActivity deleted_once = 5 \<and> autoCloseAt deleted_once = autoCloseAt sample_chat
   \<and> lastActivity read_by_2 = 9 \<and> autoCloseAt read_by_2 = autoCloseAt sample_chat
   \<and> lastActivity closed_chat_sent = 100 \<and> autoCloseAt closed_chat_sent = 100 + week"
proof -
  have e: "editMessage sample_chat 1 '' hi '' 1 9 = Inr edited_once"
    by (simp add: editMessage_def message_by_id_def edited_def save_def sample_defs
        edited_once_def deleted_once_def read_by_2_def closed_chat_sent_def hello_message_def
        schema_defs)
  have d: "deleteMessage sample_chat 1 1 5 = Inr deleted_once"
    by (simp add: deleteMessage_def message_by_id_def deleted_def save_def sample_defs
        edited_once_def deleted_once_def read_by_2_def closed_chat_sent_def hello_message_def
        schema_defs)
  have r: "markMessagesAsRead sample_chat 2 None 9 = Inr read_by_2"
    by (simp add: markMessagesAsRead_def set_read_if_unread_def set_read_def save_def
        sample_defs edited_once_def deleted_once_def read_by_2_def closed_chat_sent_def
            hello_message_def schema_defs)
  have r1: "markMessagesAsRead sample_chat 2 (Some [1]) 9 = Inr read_by_2"
    by (simp add: markMessagesAsRead_def mark_one_def message_by_id_def set_read_def save_def
        sample_defs read_by_2_def schema_defs)
  have a: "addMessage closed_chat 2 2 ''hello'' ''text'' 100 = Inr closed_chat_sent"
    by (simp add: addMessage_def new_message_def save_def sample_defs edited_once_def
        deleted_once_def read_by_2_def closed_chat_sent_def hello_message_def schema_defs)
  have m: "message_by_id 1 (messages sample_chat) = Some sample_message"
    "editedAt sample_message \<noteq> Some 9" "deletedAt sample_message \<noteq> Some 5"
    by (simp_all add: message_by_id_def sample_defs edited_once_def deleted_once_def
        read_by_2_def closed_chat_sent_def hello_message_def)
  have changed: "messages read_by_2 \<noteq> messages sample_chat"
    by (simp add: sample_defs edited_once_def deleted_once_def read_by_2_def
        closed_chat_sent_def hello_message_def)
  from C10_last_activity_and_deadline [of sample_chat 1 "'' hi ''" 1 9] e m
  have "lastActivity edited_once = 9 \<and> autoCloseAt edited_once = autoCloseAt sample_chat"
    by blast
  moreover
  from C10_last_activity_and_deadline [of sample_chat 1 "[]" 1 5] d m
  have "lastActivity deleted_once = 5 \<and> autoCloseAt deleted_once = autoCloseAt sample_chat"
    by blast
  moreover
  from C10_last_activity_and_deadline [of sample_chat 1 "[]" 2 9 None] r changed
  have "lastActivity read_by_2 = 9 \<and> autoCloseAt read_by_2 = autoCloseAt sample_chat"
    by auto
  moreover
  from C10_last_activity_and_deadline [of sample_chat 1 "[]" 2 9 "Some [1]"] r1 changed
  have "lastActivity read_by_2 = 9 \<and> autoCloseAt read_by_2 = autoCloseAt sample_chat"
    by auto
  moreover
  from C10_last_activity_and_deadline [of closed_chat 1 "''hello''" 2 100 None 2 "''text''"] a
  have "lastActivity closed_chat_sent = 100 \<and> autoCloseAt closed_chat_sent = 100 + week"
    by blast
  ultimately show ?thesis using e d r r1 a by simp
qed

end
